theory Spec2Isabelle
  imports Main "HOL-Library.Sublist"
begin

section \<open>The slash-command webhook of otk-please (main.go)\<close>

text \<open>
  The program is one HTTP handler: it verifies the signature of an inbound request, parses
  the slash command, picks an environment from the command text, fetches a token from
  that environment over HTTP and writes the answer. Go strings are byte sequences, so
  they are modelled as \<open>string\<close> (lists of 8-bit characters). Everything the handler
  reaches outside main.go (the process environment, the slack-go library, the URL parser
  and the HTTP client) is a field of the record \<open>World\<close> that every function takes as
  its first argument; the calls the handler makes to the outside are recorded in a trace.
\<close>

subsection \<open>Errors, byte streams, requests and responses\<close>

datatype error = Error string

text \<open>\<open>errors.Wrap(err, msg)\<close>: a new error whose text is the message, a colon, the cause.\<close>

fun Wrap :: "error \<Rightarrow> string \<Rightarrow> error" where
  "Wrap (Error cause) msg = Error (msg @ '': '' @ cause)"

text \<open>
  An \<open>io.Reader\<close> that has not been read yet: the bytes it will deliver, and the error
  that ends the stream if it does not end with EOF. \<open>ioutil.ReadAll\<close> drains the reader
  and returns the bytes, or the error; the reader it leaves behind is empty.
\<close>

datatype Reader = Reader (pending: string) (failure: "error option")

fun ReadAll :: "Reader \<Rightarrow> (error + string) \<times> Reader" where
  "ReadAll (Reader bs None) = (Inr bs, Reader [] None)"
| "ReadAll (Reader bs (Some e)) = (Inl e, Reader [] (Some e))"

text \<open>\<open>ioutil.NopCloser(bytes.NewBuffer(body))\<close>: a fresh stream over the given bytes.\<close>

definition NewBuffer :: "string \<Rightarrow> Reader" where
  "NewBuffer bs = Reader bs None"

text \<open>A request sent without a body (\<open>http.NewRequest\<close> with a nil body).\<close>

definition NoBody :: Reader where
  "NoBody = Reader [] None"

text \<open>
  \<open>http.Header\<close>: the values of each key, in the order they were added. \<open>Add\<close>
  appends a value to those of the key; the only key the program adds, Authorization, is
  already in canonical form.
\<close>

type_synonym Header = "(string \<times> string list) list"

definition Header_Add :: "Header \<Rightarrow> string \<Rightarrow> string \<Rightarrow> Header" where
  "Header_Add h key v =
     (case map_of h key of
        None \<Rightarrow> h @ [(key, [v])]
      | Some vs \<Rightarrow> map (\<lambda>(k, old). if k = key then (k, old @ [v]) else (k, old)) h)"

record Request =
  Method :: string
  URL :: string
  Header :: Header
  Body :: Reader

record Response =
  StatusCode :: nat
  RespBody :: Reader

text \<open>The part of \<open>slack.SlashCommand\<close> that the handler reads.\<close>

record SlashCommand =
  Command :: string
  Text :: string

subsection \<open>The world outside main.go\<close>

text \<open>
  \<open>environ\<close> is the process environment. The next four fields are the slack-go library:
  the constructor of the signature verifier from the request headers and the signing
  secret, its \<open>Write\<close> and \<open>Ensure\<close> methods (the verifier itself is the type parameter),
  and the parser of the form-encoded slash command, which reads the body of the request
  it is given. \<open>url_Parse\<close> says whether \<open>net/url\<close> rejects a URL, and \<open>client_Do\<close> is
  the exchange with the upstream server: a transport error, or the response received.
\<close>

record 'sv World =
  environ :: "string \<rightharpoonup> string"
  NewSecretsVerifier :: "Header \<Rightarrow> string \<Rightarrow> error + 'sv"
  sv_Write :: "'sv \<Rightarrow> string \<Rightarrow> error + 'sv"
  sv_Ensure :: "'sv \<Rightarrow> error option"
  SlashCommandParse :: "Request \<Rightarrow> error + SlashCommand"
  url_Parse :: "string \<Rightarrow> error option"
  client_Do :: "Request \<Rightarrow> error + Response"

text \<open>\<open>os.Getenv\<close>: the value of the variable, empty when it is not set.\<close>

definition Getenv :: "'sv World \<Rightarrow> string \<Rightarrow> string" where
  "Getenv wd key = (case environ wd key of None \<Rightarrow> [] | Some v \<Rightarrow> v)"

text \<open>
  \<open>http.NewRequest\<close>: an empty method means GET; it fails on a method that is not a
  token and on a URL that does not parse; otherwise the request has the method, the
  URL, no header and the body given.
\<close>

definition tokenChars :: string where
  "tokenChars =
     ''!#$%&*+-.^_|~'' @ [CHR 0x27, CHR 0x60] @ ''0123456789'' @
     ''abcdefghijklmnopqrstuvwxyz'' @ ''ABCDEFGHIJKLMNOPQRSTUVWXYZ''"

definition validMethod :: "string \<Rightarrow> bool" where
  "validMethod m \<longleftrightarrow> m \<noteq> [] \<and> list_all (\<lambda>c. c \<in> set tokenChars) m"

definition NewRequest :: "'sv World \<Rightarrow> string \<Rightarrow> string \<Rightarrow> Reader \<Rightarrow> error + Request" where
  "NewRequest wd method0 url rd =
     (let method = (if method0 = [] then ''GET'' else method0) in
      if \<not> validMethod method then Inl (Error ''net/http: invalid method'')
      else case url_Parse wd url of
             Some err \<Rightarrow> Inl err
           | None \<Rightarrow> Inr \<lparr>Method = method, URL = url, Header = [], Body = rd\<rparr>)"

text \<open>The calls that leave the handler, in the order they are made.\<close>

datatype Event = CallSlashCommandParse Request | CallDo Request

subsection \<open>The response writer\<close>

text \<open>
  \<open>http.ResponseWriter\<close>: \<open>WriteHeader\<close> fixes the status once; \<open>Write\<close> fixes it to
  200 when nothing has fixed it before, and appends to the body.
\<close>

record ResponseWriter =
  wroteHeader :: bool
  status :: nat
  body :: string

definition StatusOK :: nat where "StatusOK = 200"
definition StatusUnauthorized :: nat where "StatusUnauthorized = 401"
definition StatusInternalServerError :: nat where "StatusInternalServerError = 500"

definition newResponseWriter :: ResponseWriter where
  "newResponseWriter = \<lparr>wroteHeader = False, status = 0, body = []\<rparr>"

definition WriteHeader :: "ResponseWriter \<Rightarrow> nat \<Rightarrow> ResponseWriter" where
  "WriteHeader rw code =
     (if wroteHeader rw then rw else rw\<lparr>wroteHeader := True, status := code\<rparr>)"

definition Write :: "ResponseWriter \<Rightarrow> string \<Rightarrow> ResponseWriter" where
  "Write rw bs =
     (let rw' = (if wroteHeader rw then rw else WriteHeader rw StatusOK)
      in rw'\<lparr>body := body rw' @ bs\<rparr>)"

subsection \<open>Strings\<close>

text \<open>\<open>strings.HasSuffix\<close> and \<open>strings.TrimSuffix\<close>, as the Go library defines them.\<close>

definition HasSuffix :: "string \<Rightarrow> string \<Rightarrow> bool" where
  "HasSuffix s suf \<longleftrightarrow>
     length suf \<le> length s \<and> drop (length s - length suf) s = suf"

definition TrimSuffix :: "string \<Rightarrow> string \<Rightarrow> string" where
  "TrimSuffix s suf = (if HasSuffix s suf then take (length s - length suf) s else s)"

definition newline :: string where
  "newline = [CHR 0x0A]"

definition carriage_return :: string where
  "carriage_return = [CHR 0x0D]"

subsection \<open>Case-insensitive regular expressions\<close>

text \<open>
  The handler compiles \<open>(?i)demo\<close> and \<open>(?i)staging\<close>: a literal under the
  case-folding flag. Go's \<open>regexp\<close> matches each rune of such a literal against every
  rune of its orbit under \<open>unicode.SimpleFold\<close>. For an ASCII letter the orbit is its
  two cases, and two letters have a third member: U+017F (long s, UTF-8 C5 BF) folds with
  \<open>s\<close>, and U+212A (Kelvin sign, UTF-8 E2 84 AA) folds with \<open>k\<close>. The text is UTF-8, so
  the orbit is given as the byte strings that encode its runes. \<open>MatchString\<close> looks
  for a match starting at any position.
\<close>

definition isUpper :: "char \<Rightarrow> bool" where
  "isUpper c \<longleftrightarrow> 65 \<le> (of_char c :: nat) \<and> (of_char c :: nat) \<le> 90"

definition isLower :: "char \<Rightarrow> bool" where
  "isLower c \<longleftrightarrow> 97 \<le> (of_char c :: nat) \<and> (of_char c :: nat) \<le> 122"

definition toLower :: "char \<Rightarrow> char" where
  "toLower c = (if isUpper c then char_of (of_char c + 32 :: nat) else c)"

definition toUpper :: "char \<Rightarrow> char" where
  "toUpper c = (if isLower c then char_of (of_char c - 32 :: nat) else c)"

definition long_s :: string where
  "long_s = [CHR 0xC5, CHR 0xBF]"

definition kelvin_sign :: string where
  "kelvin_sign = [CHR 0xE2, CHR 0x84, CHR 0xAA]"

definition foldOrbit :: "char \<Rightarrow> string list" where
  "foldOrbit c =
     (if c = CHR ''s'' \<or> c = CHR ''S'' then [''s'', ''S'', long_s]
      else if c = CHR ''k'' \<or> c = CHR ''K'' then [''k'', ''K'', kelvin_sign]
      else if isLower c then [[c], [toUpper c]]
      else if isUpper c then [[c], [toLower c]]
      else [[c]])"

datatype Regexp = FoldLiteral string

fun matchHere :: "string \<Rightarrow> string \<Rightarrow> bool" where
  "matchHere [] s = True"
| "matchHere (p # ps) s =
     list_ex (\<lambda>enc. prefix enc s \<and> matchHere ps (drop (length enc) s)) (foldOrbit p)"

fun matchAnywhere :: "string \<Rightarrow> string \<Rightarrow> bool" where
  "matchAnywhere ps [] = matchHere ps []"
| "matchAnywhere ps (c # cs) = (matchHere ps (c # cs) \<or> matchAnywhere ps cs)"

fun MatchString :: "Regexp \<Rightarrow> string \<Rightarrow> bool" where
  "MatchString (FoldLiteral ps) s = matchAnywhere ps s"

subsection \<open>main.go\<close>

definition demoAddress :: string where
  "demoAddress = ''https://submission.covid-alert-demo.cdssandbox.xyz/new-key-claim''"

definition stagingAddress :: string where
  "stagingAddress = ''https://submission.wild-samphire.cdssandbox.xyz/new-key-claim''"

text \<open>
  \<open>verifyRequest\<close> returns the error (\<open>None\<close> for nil) and the request as it leaves it:
  the body is replaced by a fresh stream over the bytes read as soon as they are read.
\<close>

definition verifyRequest :: "'sv World \<Rightarrow> Request \<Rightarrow> error option \<times> Request" where
  "verifyRequest wd req =
     (case NewSecretsVerifier wd (Header req) (Getenv wd ''SLACK_SIGNING_SECRET'') of
        Inl err \<Rightarrow> (Some (Wrap err ''NewSecretsVerifier failed''), req)
      | Inr secretVerifier \<Rightarrow>
          (case ReadAll (Body req) of
             (Inl err, rd) \<Rightarrow> (Some (Wrap err ''ReadAll failed''), req\<lparr>Body := rd\<rparr>)
           | (Inr bs, rd) \<Rightarrow>
               (let req' = req\<lparr>Body := NewBuffer bs\<rparr> in
                case sv_Write wd secretVerifier bs of
                  Inl err \<Rightarrow> (Some (Wrap err ''Ensure failed''), req')
                | Inr secretVerifier' \<Rightarrow>
                    (case sv_Ensure wd secretVerifier' of
                       Some err \<Rightarrow> (Some (Wrap err ''Ensure failed''), req')
                     | None \<Rightarrow> (None, req')))))"

text \<open>\<open>getToken\<close> returns its result and the outbound calls it made.\<close>

definition getToken :: "'sv World \<Rightarrow> string \<Rightarrow> string \<Rightarrow> (error + string) \<times> Event list" where
  "getToken wd bearerToken address =
     (case NewRequest wd ''POST'' address NoBody of
        Inl err \<Rightarrow> (Inl err, [])
      | Inr req0 \<Rightarrow>
          (let req = req0\<lparr>Header :=
                 Header_Add (Header req0) ''Authorization'' (''Bearer '' @ bearerToken)\<rparr>
           in case client_Do wd req of
                Inl err \<Rightarrow> (Inl err, [CallDo req])
              | Inr res \<Rightarrow>
                  (case fst (ReadAll (RespBody res)) of
                     Inl err \<Rightarrow> (Inl err, [CallDo req])
                   | Inr bs \<Rightarrow> (Inr (TrimSuffix bs newline), [CallDo req]))))"

text \<open>The request that \<open>getToken\<close> hands to the HTTP client.\<close>

definition outbound :: "string \<Rightarrow> string \<Rightarrow> Request" where
  "outbound bearerToken address =
     \<lparr>Method = ''POST'', URL = address,
      Header = [(''Authorization'', [''Bearer '' @ bearerToken])], Body = NoBody\<rparr>"

text \<open>
  Lines 100 to 115 of the handler: the bearer token, the address and the name of the
  environment that the command text selects, \<open>None\<close> when the handler answers with
  the guidance text instead. \<open>demo\<close> and \<open>staging\<close> are the two expressions as
  \<open>regexp.MustCompile\<close> compiles them; both patterns are well formed, so it does not
  panic.
\<close>

definition demo :: Regexp where
  "demo = FoldLiteral ''demo''"

definition staging :: Regexp where
  "staging = FoldLiteral ''staging''"

definition selectEnvironment :: "'sv World \<Rightarrow> string \<Rightarrow> (string \<times> string \<times> string) option" where
  "selectEnvironment wd text =
     (if MatchString demo text then Some (Getenv wd ''DEMO'', demoAddress, ''Demo'')
      else if MatchString staging text
        then Some (Getenv wd ''STAGING'', stagingAddress, ''Staging'')
      else None)"

definition guidance :: string where
  "guidance = ''Please enter either *demo* or *staging*''"

record Outcome =
  writer :: ResponseWriter
  trace :: "Event list"

definition handler :: "'sv World \<Rightarrow> ResponseWriter \<Rightarrow> Request \<Rightarrow> Outcome" where
  "handler wd rw req =
     (case verifyRequest wd req of
        (Some err, req') \<Rightarrow> \<lparr>writer = WriteHeader rw StatusUnauthorized, trace = []\<rparr>
      | (None, req') \<Rightarrow>
          (case SlashCommandParse wd req' of
             Inl err \<Rightarrow>
               \<lparr>writer = WriteHeader rw StatusInternalServerError,
                trace = [CallSlashCommandParse req']\<rparr>
           | Inr s \<Rightarrow>
               (case selectEnvironment wd (Text s) of
                  None \<Rightarrow>
                    \<lparr>writer = Write rw guidance, trace = [CallSlashCommandParse req']\<rparr>
                | Some (bearerToken, address, environment) \<Rightarrow>
                    (case getToken wd bearerToken address of
                       (Inl err, evs) \<Rightarrow>
                         \<lparr>writer = WriteHeader rw StatusInternalServerError,
                          trace = CallSlashCommandParse req' # evs\<rparr>
                     | (Inr token, evs) \<Rightarrow>
                         \<lparr>writer = Write rw (environment @ '' token: '' @ token),
                          trace = CallSlashCommandParse req' # evs\<rparr>))))"

subsection \<open>What the specification calls a case-insensitive substring\<close>

text \<open>
  The specification speaks of a text that contains a word "in any letter case and at any
  position". \<open>casefold\<close> maps a UTF-8 text to its simple case folding as far as ASCII is
  concerned: an upper-case ASCII letter becomes the lower-case one, the two runes outside
  ASCII whose folding is an ASCII letter (long s and the Kelvin sign) become \<open>s\<close> and
  \<open>k\<close>, and every other byte stays. \<open>containsFold needle text\<close> holds when some
  contiguous part of the text folds to the needle.
\<close>

fun casefold :: "string \<Rightarrow> string" where
  "casefold [] = []"
| "casefold (c # cs) =
     (if prefix long_s (c # cs) then CHR ''s'' # casefold (drop 1 cs)
      else if prefix kelvin_sign (c # cs) then CHR ''k'' # casefold (drop 2 cs)
      else toLower c # casefold cs)"

definition containsFold :: "string \<Rightarrow> string \<Rightarrow> bool" where
  "containsFold needle text \<longleftrightarrow>
     list_ex (\<lambda>suf. list_ex (\<lambda>mid. casefold mid = needle) (prefixes suf)) (suffixes text)"

subsection \<open>An example world\<close>

text \<open>
  A small world on which the theorems below are instantiated. Its verifier stands in for
  the keyed hash of the library: the signature of a request is the signing secret, the
  version tag, the timestamp and the body, spelled out. Its command parser accepts a body
  of the form \<open>text=...\<close>. Its upstream server answers every request the same way.
\<close>

definition exampleNewSecretsVerifier :: "Header \<Rightarrow> string \<Rightarrow> error + string \<times> string" where
  "exampleNewSecretsVerifier h secret =
     (case (map_of h ''X-Slack-Signature'', map_of h ''X-Slack-Request-Timestamp'') of
        (Some (sg # _), Some (ts # _)) \<Rightarrow> Inr (sg, secret @ '':v0:'' @ ts @ '':'')
      | _ \<Rightarrow> Inl (Error ''missing headers''))"

definition exampleWrite :: "string \<times> string \<Rightarrow> string \<Rightarrow> error + string \<times> string" where
  "exampleWrite sv bs = Inr (fst sv, snd sv @ bs)"

definition exampleEnsure :: "string \<times> string \<Rightarrow> error option" where
  "exampleEnsure sv = (if fst sv = snd sv then None else Some (Error ''invalid signature''))"

definition exampleSlashCommandParse :: "Request \<Rightarrow> error + SlashCommand" where
  "exampleSlashCommandParse req =
     (case fst (ReadAll (Body req)) of
        Inl err \<Rightarrow> Inl err
      | Inr bs \<Rightarrow>
          if take 5 bs = ''text='' then Inr \<lparr>Command = ''/otk'', Text = drop 5 bs\<rparr>
          else Inl (Error ''malformed payload''))"

definition exampleWorld ::
    "(string \<rightharpoonup> string) \<Rightarrow> (error + Response) \<Rightarrow> (string \<times> string) World" where
  "exampleWorld env upstream =
     \<lparr>environ = env,
      NewSecretsVerifier = exampleNewSecretsVerifier,
      sv_Write = exampleWrite,
      sv_Ensure = exampleEnsure,
      SlashCommandParse = exampleSlashCommandParse,
      url_Parse = (\<lambda>u. if u = [] then Some (Error ''empty url'') else None),
      client_Do = (\<lambda>r. upstream)\<rparr>"

definition exampleEnviron :: "string \<rightharpoonup> string" where
  "exampleEnviron =
     [''SLACK_SIGNING_SECRET'' \<mapsto> ''shh'', ''DEMO'' \<mapsto> ''d-secret'',
      ''STAGING'' \<mapsto> ''s-secret'']"

definition signedRequest :: "string \<Rightarrow> Request" where
  "signedRequest text =
     \<lparr>Method = ''POST'', URL = ''/'',
      Header = [(''X-Slack-Signature'', [''shh:v0:1:text='' @ text]),
                (''X-Slack-Request-Timestamp'', [''1''])],
      Body = NewBuffer (''text='' @ text)\<rparr>"

definition forgedRequest :: "string \<Rightarrow> Request" where
  "forgedRequest text =
     \<lparr>Method = ''POST'', URL = ''/'',
      Header = [(''X-Slack-Signature'', [''guess:v0:1:text='' @ text]),
                (''X-Slack-Request-Timestamp'', [''1''])],
      Body = NewBuffer (''text='' @ text)\<rparr>"

definition upstreamAnswers :: "nat \<Rightarrow> string \<Rightarrow> error + Response" where
  "upstreamAnswers code bs = Inr \<lparr>StatusCode = code, RespBody = NewBuffer bs\<rparr>"

section \<open>Properties\<close>

subsection \<open>Suffixes\<close>

lemma HasSuffix_iff: "HasSuffix s suf \<longleftrightarrow> (\<exists>p. s = p @ suf)"
proof
  assume "HasSuffix s suf"
  then have "s = take (length s - length suf) s @ suf"
    unfolding HasSuffix_def by (metis append_take_drop_id)
  then show "\<exists>p. s = p @ suf" ..
next
  assume "\<exists>p. s = p @ suf"
  then show "HasSuffix s suf" by (auto simp: HasSuffix_def)
qed

lemma TrimSuffix_append: "TrimSuffix (p @ suf) suf = p"
  by (simp add: TrimSuffix_def HasSuffix_iff)

lemma TrimSuffix_none: "\<not> HasSuffix s suf \<Longrightarrow> TrimSuffix s suf = s"
  by (simp add: TrimSuffix_def)

lemma TrimSuffix_twice:
  "TrimSuffix (TrimSuffix b newline) newline = TrimSuffix b newline
     \<longleftrightarrow> \<not> HasSuffix b (newline @ newline)"
proof (cases "HasSuffix b newline")
  case True
  then obtain p where b: "b = p @ newline" by (auto simp: HasSuffix_iff)
  have "TrimSuffix p newline = p \<longleftrightarrow> \<not> HasSuffix p newline"
    by (auto simp: TrimSuffix_def HasSuffix_iff newline_def)
  moreover have "HasSuffix p newline \<longleftrightarrow> HasSuffix b (newline @ newline)"
    by (auto simp: b HasSuffix_iff newline_def)
  ultimately show ?thesis by (simp add: b TrimSuffix_append)
next
  case False
  then have "\<not> HasSuffix b (newline @ newline)"
    by (metis HasSuffix_iff append.assoc)
  with False show ?thesis by (simp add: TrimSuffix_none)
qed

subsection \<open>Case folding and the matcher\<close>

text \<open>
  For a needle of lower-case ASCII letters, the matcher of the regular expression finds
  a match exactly when some contiguous part of the text folds to the needle.
\<close>



lemma of_char_toLower:
  "(of_char (toLower c) :: nat) = (if isUpper c then of_char c + 32 else of_char c)"
  by (simp add: toLower_def isUpper_def)

lemma of_char_toUpper:
  "(of_char (toUpper c) :: nat) = (if isLower c then of_char c - 32 else of_char c)"
proof -
  have "(of_char c :: nat) < 256" by simp
  then have "(of_char c - 32 :: nat) < 256" by linarith
  then have "(of_char c - 32 :: nat) mod 256 = of_char c - 32" by (rule mod_less)
  then show ?thesis by (simp add: toUpper_def)
qed

lemma char_eq_nat: "c = d \<longleftrightarrow> (of_char c :: nat) = of_char d"
  by simp

lemma toLower_cases: "isLower p \<Longrightarrow> toLower c = p \<longleftrightarrow> c = p \<or> c = toUpper p"
  unfolding char_eq_nat [of "toLower c"] char_eq_nat [of c] of_char_toLower of_char_toUpper
  by (auto simp: isLower_def isUpper_def)

lemma letter_not_lead:
  "isLower p \<Longrightarrow> p \<noteq> CHR 0xC5 \<and> p \<noteq> CHR 0xE2 \<and> toUpper p \<noteq> CHR 0xC5 \<and> toUpper p \<noteq> CHR 0xE2"
  unfolding char_eq_nat [of _ "CHR 0xC5"] char_eq_nat [of _ "CHR 0xE2"] of_char_toUpper
  by (auto simp: isLower_def)

lemma toUpper_s: "toUpper (CHR ''s'') = CHR ''S''"
  unfolding char_eq_nat [of "toUpper _"] of_char_toUpper by (simp add: isLower_def)

lemma toUpper_k: "toUpper (CHR ''k'') = CHR ''K''"
  unfolding char_eq_nat [of "toUpper _"] of_char_toUpper by (simp add: isLower_def)

lemma foldOrbit_lower:
  assumes "isLower p"
  shows "set (foldOrbit p) =
     {[p], [toUpper p]} \<union> (if p = CHR ''s'' then {long_s} else {}) \<union>
     (if p = CHR ''k'' then {kelvin_sign} else {})"
proof -
  have "p \<noteq> CHR ''S''" "p \<noteq> CHR ''K''"
    using assms by (auto simp: isLower_def)
  then show ?thesis
    using assms by (auto simp: foldOrbit_def toUpper_s toUpper_k)
qed

lemma casefold_single:
  "c \<noteq> CHR 0xC5 \<Longrightarrow> c \<noteq> CHR 0xE2 \<Longrightarrow> casefold (c # r) = toLower c # casefold r"
  by (simp add: long_s_def kelvin_sign_def)

lemma casefold_long_s: "casefold (long_s @ r) = CHR ''s'' # casefold r"
  by (simp add: long_s_def)

lemma casefold_kelvin_sign: "casefold (kelvin_sign @ r) = CHR ''k'' # casefold r"
  by (simp add: long_s_def kelvin_sign_def)

declare casefold.simps(2) [simp del]

lemma casefold_orbit:
  assumes "isLower p" and "enc \<in> set (foldOrbit p)"
  shows "casefold (enc @ r) = p # casefold r"
proof -
  from assms consider "enc = [p]" | "enc = [toUpper p]"
    | "p = CHR ''s''" "enc = long_s" | "p = CHR ''k''" "enc = kelvin_sign"
    by (auto simp: foldOrbit_lower split: if_splits)
  then show ?thesis
  proof cases
    case 1
    with assms(1) show ?thesis
      using letter_not_lead [of p] toLower_cases [of p p] by (simp add: casefold_single)
  next
    case 2
    with assms(1) show ?thesis
      using letter_not_lead [of p] toLower_cases [of p "toUpper p"] by (simp add: casefold_single)
  next
    case 3
    then show ?thesis by (simp only: casefold_long_s)
  next
    case 4
    then show ?thesis by (simp only: casefold_kelvin_sign)
  qed
qed

lemma casefold_eq_Cons:
  assumes "isLower p" and "casefold mid = p # ps"
  shows "\<exists>enc r. enc \<in> set (foldOrbit p) \<and> mid = enc @ r \<and> casefold r = ps"
proof (cases mid)
  case Nil
  with assms show ?thesis by simp
next
  case (Cons c cs)
  consider "prefix long_s mid" | "\<not> prefix long_s mid" "prefix kelvin_sign mid"
    | "\<not> prefix long_s mid" "\<not> prefix kelvin_sign mid" by blast
  then show ?thesis
  proof cases
    case 1
    then obtain r where r: "mid = long_s @ r" by (auto simp: prefix_def)
    with assms have "p = CHR ''s''" "casefold r = ps" by (simp_all add: casefold_long_s)
    with r assms(1) show ?thesis by (auto simp: foldOrbit_lower)
  next
    case 2
    then obtain r where r: "mid = kelvin_sign @ r" by (auto simp: prefix_def)
    with assms have "p = CHR ''k''" "casefold r = ps" by (simp_all add: casefold_kelvin_sign)
    with r assms(1) show ?thesis by (auto simp: foldOrbit_lower)
  next
    case 3
    with Cons assms(2) have "toLower c = p" "casefold cs = ps"
      by (simp_all add: casefold.simps(2))
    with assms(1) have "c = p \<or> c = toUpper p" by (simp add: toLower_cases)
    then have "[c] \<in> set (foldOrbit p)" using assms(1) by (auto simp: foldOrbit_lower)
    with Cons \<open>casefold cs = ps\<close> show ?thesis by (metis append_Cons append_Nil)
  qed
qed

lemma matchHere_iff:
  assumes "list_all isLower needle"
  shows "matchHere needle s \<longleftrightarrow> (\<exists>mid post. s = mid @ post \<and> casefold mid = needle)"
  using assms
proof (induction needle arbitrary: s)
  case Nil
  have "s = [] @ s \<and> casefold [] = []" by simp
  then show ?case unfolding matchHere.simps by blast
next
  case (Cons p ps)
  then have p: "isLower p" and ps: "list_all isLower ps" by simp_all
  note IH = Cons.IH [OF ps]
  show ?case
  proof
    assume "matchHere (p # ps) s"
    then obtain enc where enc: "enc \<in> set (foldOrbit p)" "prefix enc s"
      "matchHere ps (drop (length enc) s)" by (auto simp: list_ex_iff)
    then obtain r where s: "s = enc @ r" by (auto simp: prefix_def)
    with enc(3) IH obtain mid post where "r = mid @ post" "casefold mid = ps" by auto
    with s have "s = (enc @ mid) @ post \<and> casefold (enc @ mid) = p # ps"
      by (simp add: casefold_orbit [OF p enc(1)])
    then show "\<exists>mid post. s = mid @ post \<and> casefold mid = p # ps" by blast
  next
    assume "\<exists>mid post. s = mid @ post \<and> casefold mid = p # ps"
    then obtain mid post where s: "s = mid @ post" and c: "casefold mid = p # ps" by blast
    from casefold_eq_Cons [OF p c] obtain enc r
      where enc: "enc \<in> set (foldOrbit p)" "mid = enc @ r" "casefold r = ps" by blast
    have "matchHere ps (r @ post)" using IH enc(3) by blast
    moreover have "prefix enc s" "drop (length enc) s = r @ post"
      using enc(2) s by simp_all
    ultimately have "prefix enc s \<and> matchHere ps (drop (length enc) s)" by simp
    with enc(1) show "matchHere (p # ps) s"
      unfolding matchHere.simps list_ex_iff by blast
  qed
qed


lemma containsFold_iff:
  "containsFold needle text \<longleftrightarrow> (\<exists>pre mid post. text = pre @ mid @ post \<and> casefold mid = needle)"
proof
  assume "containsFold needle text"
  then obtain suf mid where "suffix suf text" "prefix mid suf" "casefold mid = needle"
    by (auto simp: containsFold_def list_ex_iff)
  then show "\<exists>pre mid post. text = pre @ mid @ post \<and> casefold mid = needle"
    unfolding prefix_def suffix_def by blast
next
  assume "\<exists>pre mid post. text = pre @ mid @ post \<and> casefold mid = needle"
  then obtain pre mid post where t: "text = pre @ mid @ post" and c: "casefold mid = needle"
    by blast
  have "suffix (mid @ post) text" by (simp add: t suffix_def)
  moreover have "prefix mid (mid @ post)" by simp
  ultimately show "containsFold needle text"
    unfolding containsFold_def list_ex_iff using c by (metis in_set_prefixes in_set_suffixes)
qed

lemma matchAnywhere_iff:
  "matchAnywhere ps s \<longleftrightarrow> (\<exists>pre suf. s = pre @ suf \<and> matchHere ps suf)"
proof (induction s)
  case Nil
  then show ?case by simp
next
  case (Cons c cs)
  show ?case
  proof
    assume "matchAnywhere ps (c # cs)"
    then consider "matchHere ps (c # cs)" | "matchAnywhere ps cs" by auto
    then show "\<exists>pre suf. c # cs = pre @ suf \<and> matchHere ps suf"
    proof cases
      case 1
      then show ?thesis by (metis append_Nil)
    next
      case 2
      then obtain pre suf where "cs = pre @ suf" "matchHere ps suf" using Cons.IH by auto
      then show ?thesis by (metis append_Cons)
    qed
  next
    assume "\<exists>pre suf. c # cs = pre @ suf \<and> matchHere ps suf"
    then obtain pre suf where *: "c # cs = pre @ suf" "matchHere ps suf" by auto
    show "matchAnywhere ps (c # cs)"
    proof (cases pre)
      case Nil
      with * have "matchHere ps (c # cs)" by simp
      then show ?thesis by simp
    next
      case (Cons a pre')
      with * have "cs = pre' @ suf" by simp
      with * Cons.IH show ?thesis by auto
    qed
  qed
qed


lemma lower_demo: "list_all isLower ''demo''"
  by (simp add: isLower_def)

lemma lower_staging: "list_all isLower ''staging''"
  by (simp add: isLower_def)

lemma MatchString_lower:
  assumes "list_all isLower needle"
  shows "MatchString (FoldLiteral needle) text \<longleftrightarrow> containsFold needle text"
proof -
  have "MatchString (FoldLiteral needle) text
          \<longleftrightarrow> (\<exists>pre suf. text = pre @ suf \<and> matchHere needle suf)"
    by (simp add: matchAnywhere_iff)
  also have "\<dots> \<longleftrightarrow> (\<exists>pre mid post. text = pre @ mid @ post \<and> casefold mid = needle)"
    unfolding matchHere_iff [OF assms] by blast
  finally show ?thesis by (simp add: containsFold_iff)
qed

lemma MatchString_demo: "MatchString demo text \<longleftrightarrow> containsFold ''demo'' text"
  unfolding demo_def by (rule MatchString_lower [OF lower_demo])

lemma MatchString_staging: "MatchString staging text \<longleftrightarrow> containsFold ''staging'' text"
  unfolding staging_def by (rule MatchString_lower [OF lower_staging])

subsection \<open>The token fetcher\<close>

lemma validMethod_POST: "validMethod ''POST''"
  by (simp add: validMethod_def tokenChars_def)

lemma getToken_unfold:
  "getToken wd bearerToken address =
     (case url_Parse wd address of
        Some err \<Rightarrow> (Inl err, [])
      | None \<Rightarrow>
          (case client_Do wd (outbound bearerToken address) of
             Inl err \<Rightarrow> (Inl err, [CallDo (outbound bearerToken address)])
           | Inr res \<Rightarrow>
               (case fst (ReadAll (RespBody res)) of
                  Inl err \<Rightarrow> (Inl err, [CallDo (outbound bearerToken address)])
                | Inr bs \<Rightarrow>
                    (Inr (TrimSuffix bs newline), [CallDo (outbound bearerToken address)]))))"
  by (simp add: getToken_def NewRequest_def validMethod_POST Header_Add_def outbound_def
      split: option.splits sum.splits)

lemma getToken_trace:
  "url_Parse wd address = None \<Longrightarrow>
   snd (getToken wd bearerToken address) = [CallDo (outbound bearerToken address)]"
  by (simp add: getToken_unfold split: sum.splits)

lemma getToken_Inl_iff:
  "fst (getToken wd bearerToken address) = Inl err \<longleftrightarrow>
     url_Parse wd address = Some err \<or>
     url_Parse wd address = None \<and>
       (client_Do wd (outbound bearerToken address) = Inl err \<or>
        (\<exists>res. client_Do wd (outbound bearerToken address) = Inr res \<and>
               fst (ReadAll (RespBody res)) = Inl err))"
  by (auto simp: getToken_unfold split: option.splits sum.splits)

subsection \<open>The handler, stage by stage\<close>

text \<open>
  Verification succeeds only when every step of it does: the verifier is built, the body
  is read, the body is hashed and the signature is accepted.
\<close>

lemma verifyRequest_None_iff:
  "fst (verifyRequest wd req) = None \<longleftrightarrow>
     (\<exists>sv sv'. NewSecretsVerifier wd (Header req) (Getenv wd ''SLACK_SIGNING_SECRET'') = Inr sv \<and>
        failure (Body req) = None \<and>
        sv_Write wd sv (pending (Body req)) = Inr sv' \<and>
        sv_Ensure wd sv' = None)"
proof (cases "Body req")
  case (Reader bs fl)
  then show ?thesis
    by (cases fl) (auto simp: verifyRequest_def Let_def split: sum.splits option.splits)
qed

lemma selectEnvironment_folded:
  "selectEnvironment wd text =
     (if containsFold ''demo'' text then Some (Getenv wd ''DEMO'', demoAddress, ''Demo'')
      else if containsFold ''staging'' text
        then Some (Getenv wd ''STAGING'', stagingAddress, ''Staging'')
      else None)"
  by (simp add: selectEnvironment_def MatchString_demo MatchString_staging)

lemma handler_unauthorized:
  assumes "fst (verifyRequest wd req) = Some err"
  shows "handler wd rw req = \<lparr>writer = WriteHeader rw StatusUnauthorized, trace = []\<rparr>"
  using assms by (cases "verifyRequest wd req") (simp add: handler_def)

lemma handler_guidance:
  assumes "verifyRequest wd req = (None, req')"
    and "SlashCommandParse wd req' = Inr s"
    and "selectEnvironment wd (Text s) = None"
  shows "handler wd rw req =
           \<lparr>writer = Write rw guidance, trace = [CallSlashCommandParse req']\<rparr>"
  using assms by (simp add: handler_def)

lemma handler_resolved:
  assumes "verifyRequest wd req = (None, req')"
    and "SlashCommandParse wd req' = Inr s"
    and "selectEnvironment wd (Text s) = Some (bearerToken, address, environment)"
  shows "handler wd rw req =
           (case getToken wd bearerToken address of
              (Inl err, evs) \<Rightarrow>
                \<lparr>writer = WriteHeader rw StatusInternalServerError,
                 trace = CallSlashCommandParse req' # evs\<rparr>
            | (Inr token, evs) \<Rightarrow>
                \<lparr>writer = Write rw (environment @ '' token: '' @ token),
                 trace = CallSlashCommandParse req' # evs\<rparr>)"
  using assms by (simp add: handler_def)

lemma WriteHeader_new:
  "WriteHeader newResponseWriter code = \<lparr>wroteHeader = True, status = code, body = []\<rparr>"
  by (simp add: WriteHeader_def newResponseWriter_def)

lemma Write_new:
  "Write newResponseWriter bs = \<lparr>wroteHeader = True, status = 200, body = bs\<rparr>"
  by (simp add: Write_def WriteHeader_def newResponseWriter_def StatusOK_def)

lemma exampleWorld_verifies:
  "verifyRequest (exampleWorld exampleEnviron upstream) (signedRequest text)
     = (None, signedRequest text)"
  by (simp add: verifyRequest_def exampleWorld_def exampleEnviron_def signedRequest_def
      exampleNewSecretsVerifier_def exampleWrite_def exampleEnsure_def Getenv_def NewBuffer_def)

lemma exampleWorld_parses:
  "SlashCommandParse (exampleWorld env upstream) (signedRequest text)
     = Inr \<lparr>Command = ''/otk'', Text = text\<rparr>"
  by (simp add: exampleWorld_def signedRequest_def exampleSlashCommandParse_def NewBuffer_def)

lemma exampleWorld_rejects:
  "fst (verifyRequest (exampleWorld exampleEnviron upstream) (forgedRequest text))
     = Some (Error ''Ensure failed: invalid signature'')"
  by (simp add: verifyRequest_def exampleWorld_def exampleEnviron_def forgedRequest_def
      exampleNewSecretsVerifier_def exampleWrite_def exampleEnsure_def Getenv_def NewBuffer_def)

lemma exampleWorld_verifies_env:
  "env ''SLACK_SIGNING_SECRET'' = Some ''shh'' \<Longrightarrow>
   verifyRequest (exampleWorld env upstream) (signedRequest text) = (None, signedRequest text)"
  by (simp add: verifyRequest_def exampleWorld_def signedRequest_def
      exampleNewSecretsVerifier_def exampleWrite_def exampleEnsure_def Getenv_def NewBuffer_def)

lemma exampleWorld_Getenv:
  "Getenv (exampleWorld exampleEnviron upstream) ''DEMO'' = ''d-secret''"
  "Getenv (exampleWorld exampleEnviron upstream) ''STAGING'' = ''s-secret''"
  by (simp_all add: Getenv_def exampleWorld_def exampleEnviron_def)

lemma exampleWorld_getToken:
  "address \<noteq> [] \<Longrightarrow>
   getToken (exampleWorld env (upstreamAnswers code bs)) bearerToken address
     = (Inr (TrimSuffix bs newline), [CallDo (outbound bearerToken address)])"
  by (simp add: getToken_unfold exampleWorld_def upstreamAnswers_def NewBuffer_def)

lemma addresses_not_empty: "demoAddress \<noteq> []" "stagingAddress \<noteq> []"
  by (simp_all add: demoAddress_def stagingAddress_def)

lemma exampleWorld_selects_demo:
  "selectEnvironment (exampleWorld exampleEnviron upstream)
      (Text \<lparr>Command = ''/otk'', Text = ''demo''\<rparr>) = Some (''d-secret'', demoAddress, ''Demo'')"
proof -
  have "MatchString demo ''demo''" by code_simp
  then show ?thesis by (simp add: selectEnvironment_def exampleWorld_Getenv)
qed

subsection \<open>Claims about the token fetcher\<close>

text \<open>
  C7, amended. Trimming removes exactly one trailing newline when the body ends in one,
  and nothing otherwise: a body without a trailing newline is returned as it is. Trimming
  twice gives the same as trimming once exactly when the body does not end in two
  newlines.
\<close>

theorem trim_one_newline:
  "TrimSuffix (b @ newline) newline = b \<and>
   (\<not> HasSuffix b newline \<longrightarrow> TrimSuffix b newline = b) \<and>
   (TrimSuffix (TrimSuffix b newline) newline = TrimSuffix b newline
      \<longleftrightarrow> \<not> HasSuffix b (newline @ newline))"
  using TrimSuffix_append TrimSuffix_none TrimSuffix_twice by blast

theorem trim_one_newline_witness:
  "\<not> HasSuffix ''abc'' newline \<and> TrimSuffix ''abc'' newline = ''abc'' \<and>
   TrimSuffix (''abc'' @ newline) newline = ''abc'' \<and>
   \<not> HasSuffix (''abc'' @ newline) (newline @ newline) \<and>
   TrimSuffix (TrimSuffix (''abc'' @ newline) newline) newline =
     TrimSuffix (''abc'' @ newline) newline"
proof -
  have h1: "\<not> HasSuffix ''abc'' newline"
    by (simp add: HasSuffix_def newline_def)
  have h2: "\<not> HasSuffix (''abc'' @ newline) (newline @ newline)"
    by (simp add: HasSuffix_def newline_def)
  show ?thesis
    using h1 h2 trim_one_newline [of "''abc''"] trim_one_newline [of "''abc'' @ newline"]
    by blast
qed

text \<open>
  C7 as stated fails: a body that ends in two newlines loses one of them at each
  application, so trimming the trimmed result changes it.
\<close>

theorem trim_not_idempotent_counterexample:
  "TrimSuffix (''abc'' @ newline @ newline) newline = ''abc'' @ newline \<and>
   TrimSuffix (TrimSuffix (''abc'' @ newline @ newline) newline) newline = ''abc'' \<and>
   TrimSuffix (TrimSuffix (''abc'' @ newline @ newline) newline) newline
     \<noteq> TrimSuffix (''abc'' @ newline @ newline) newline"
  by (simp add: TrimSuffix_def HasSuffix_def newline_def)

text \<open>
  C9. When the upstream exchange succeeds and the body can be read, the token is the body
  with one trailing newline stripped; a body that ends in carriage return and newline
  keeps the carriage return.
\<close>

theorem getToken_keeps_carriage_return:
  assumes "url_Parse wd address = None"
    and "client_Do wd (outbound bearerToken address) = Inr res"
    and "fst (ReadAll (RespBody res)) = Inr bs"
  shows "fst (getToken wd bearerToken address) = Inr (TrimSuffix bs newline) \<and>
         (bs = b @ carriage_return @ newline \<longrightarrow>
            fst (getToken wd bearerToken address) = Inr (b @ carriage_return))"
proof -
  have "fst (getToken wd bearerToken address) = Inr (TrimSuffix bs newline)"
    using assms by (simp add: getToken_unfold)
  moreover have "TrimSuffix ((b @ carriage_return) @ newline) newline = b @ carriage_return"
    by (rule TrimSuffix_append)
  ultimately show ?thesis by simp
qed

theorem getToken_keeps_carriage_return_witness:
  "fst (getToken (exampleWorld exampleEnviron
          (upstreamAnswers 200 (''abc'' @ carriage_return @ newline))) ''d-secret'' demoAddress)
     = Inr (''abc'' @ carriage_return)"
proof -
  let ?wd = "exampleWorld exampleEnviron (upstreamAnswers 200 (''abc'' @ carriage_return @ newline))"
  have h1: "url_Parse ?wd demoAddress = None"
    by (simp add: exampleWorld_def demoAddress_def)
  have h2: "client_Do ?wd (outbound ''d-secret'' demoAddress)
              = Inr \<lparr>StatusCode = 200, RespBody = NewBuffer (''abc'' @ carriage_return @ newline)\<rparr>"
    by (simp add: exampleWorld_def upstreamAnswers_def)
  have h3: "fst (ReadAll (RespBody \<lparr>StatusCode = 200,
              RespBody = NewBuffer (''abc'' @ carriage_return @ newline)\<rparr>))
              = Inr (''abc'' @ carriage_return @ newline)"
    by (simp add: NewBuffer_def)
  show ?thesis
    using getToken_keeps_carriage_return [OF h1 h2 h3, of "''abc''"] by blast
qed

subsection \<open>Claims about the handler\<close>


text \<open>
  C5. When signature verification fails, for whatever reason (the verifier cannot be built
  from the headers and the secret, the body cannot be read, or the signature is not
  accepted), the handler answers 401 with an empty body and makes no call to the command
  parser and none to the upstream server.
\<close>

theorem unauthorized_when_verification_fails:
  assumes "fst (verifyRequest wd req) = Some err"
  shows "status (writer (handler wd newResponseWriter req)) = 401 \<and>
         body (writer (handler wd newResponseWriter req)) = [] \<and>
         trace (handler wd newResponseWriter req) = []"
  using handler_unauthorized [OF assms]
  by (simp add: WriteHeader_new StatusUnauthorized_def)

text \<open>A request with a forged signature, and one without the signature headers.\<close>

theorem unauthorized_when_verification_fails_witness:
  "fst (verifyRequest (exampleWorld exampleEnviron (upstreamAnswers 200 ''abc123''))
          (forgedRequest ''demo'')) = Some (Error ''Ensure failed: invalid signature'') \<and>
   status (writer (handler (exampleWorld exampleEnviron (upstreamAnswers 200 ''abc123''))
          newResponseWriter (forgedRequest ''demo''))) = 401 \<and>
   body (writer (handler (exampleWorld exampleEnviron (upstreamAnswers 200 ''abc123''))
          newResponseWriter (forgedRequest ''demo''))) = [] \<and>
   trace (handler (exampleWorld exampleEnviron (upstreamAnswers 200 ''abc123''))
          newResponseWriter (forgedRequest ''demo'')) = [] \<and>
   fst (verifyRequest (exampleWorld exampleEnviron (upstreamAnswers 200 ''abc123''))
          ((signedRequest ''demo'')\<lparr>Header := []\<rparr>))
     = Some (Error ''NewSecretsVerifier failed: missing headers'') \<and>
   status (writer (handler (exampleWorld exampleEnviron (upstreamAnswers 200 ''abc123''))
          newResponseWriter ((signedRequest ''demo'')\<lparr>Header := []\<rparr>))) = 401 \<and>
   body (writer (handler (exampleWorld exampleEnviron (upstreamAnswers 200 ''abc123''))
          newResponseWriter ((signedRequest ''demo'')\<lparr>Header := []\<rparr>))) = [] \<and>
   trace (handler (exampleWorld exampleEnviron (upstreamAnswers 200 ''abc123''))
          newResponseWriter ((signedRequest ''demo'')\<lparr>Header := []\<rparr>)) = []"
proof -
  have m: "fst (verifyRequest (exampleWorld exampleEnviron (upstreamAnswers 200 ''abc123''))
          ((signedRequest ''demo'')\<lparr>Header := []\<rparr>))
     = Some (Error ''NewSecretsVerifier failed: missing headers'')"
    by (simp add: verifyRequest_def exampleWorld_def exampleNewSecretsVerifier_def)
  show ?thesis
    using unauthorized_when_verification_fails [OF exampleWorld_rejects]
      unauthorized_when_verification_fails [OF m] exampleWorld_rejects m
    by blast
qed

text \<open>
  C4. For a request that passes verification and parses, when the command text contains
  neither "demo" nor "staging" in any letter case, the handler answers 200 with the
  guidance text as body, and its only call to the outside is the command parser: no
  request goes to the upstream server.
\<close>

theorem guidance_when_no_environment:
  assumes "verifyRequest wd req = (None, req')"
    and "SlashCommandParse wd req' = Inr s"
    and "\<not> containsFold ''demo'' (Text s)"
    and "\<not> containsFold ''staging'' (Text s)"
  shows "status (writer (handler wd newResponseWriter req)) = 200 \<and>
         body (writer (handler wd newResponseWriter req))
           = ''Please enter either *demo* or *staging*'' \<and>
         trace (handler wd newResponseWriter req) = [CallSlashCommandParse req'] \<and>
         (\<forall>r. CallDo r \<notin> set (trace (handler wd newResponseWriter req)))"
proof -
  have "selectEnvironment wd (Text s) = None"
    using assms(3,4) by (simp add: selectEnvironment_folded)
  from handler_guidance [OF assms(1,2) this]
  show ?thesis by (simp add: Write_new guidance_def)
qed

theorem guidance_when_no_environment_witness:
  "\<not> containsFold ''demo'' ''hello'' \<and> \<not> containsFold ''staging'' ''hello'' \<and>
   status (writer (handler (exampleWorld exampleEnviron (upstreamAnswers 200 ''abc123''))
          newResponseWriter (signedRequest ''hello''))) = 200 \<and>
   body (writer (handler (exampleWorld exampleEnviron (upstreamAnswers 200 ''abc123''))
          newResponseWriter (signedRequest ''hello'')))
     = ''Please enter either *demo* or *staging*'' \<and>
   trace (handler (exampleWorld exampleEnviron (upstreamAnswers 200 ''abc123''))
          newResponseWriter (signedRequest ''hello''))
     = [CallSlashCommandParse (signedRequest ''hello'')]"
proof -
  have h3: "\<not> containsFold ''demo'' (Text \<lparr>Command = ''/otk'', Text = ''hello''\<rparr>)"
    by code_simp
  have h4: "\<not> containsFold ''staging'' (Text \<lparr>Command = ''/otk'', Text = ''hello''\<rparr>)"
    by code_simp
  show ?thesis
    using guidance_when_no_environment [OF exampleWorld_verifies exampleWorld_parses h3 h4]
      h3 h4 by simp
qed

text \<open>
  C2. For a request that passes verification and parses, when the command text contains
  "demo" in any letter case at any position, the environment selected is Demo: the bearer
  token is the value of the variable DEMO, the address is the demo address, the token is
  fetched with these two, and the answer names the environment "Demo".
\<close>

theorem demo_resolved:
  assumes "verifyRequest wd req = (None, req')"
    and "SlashCommandParse wd req' = Inr s"
    and "containsFold ''demo'' (Text s)"
  shows "selectEnvironment wd (Text s) = Some (Getenv wd ''DEMO'', demoAddress, ''Demo'') \<and>
         handler wd rw req =
           (case getToken wd (Getenv wd ''DEMO'') demoAddress of
              (Inl err, evs) \<Rightarrow>
                \<lparr>writer = WriteHeader rw StatusInternalServerError,
                 trace = CallSlashCommandParse req' # evs\<rparr>
            | (Inr token, evs) \<Rightarrow>
                \<lparr>writer = Write rw (''Demo token: '' @ token),
                 trace = CallSlashCommandParse req' # evs\<rparr>)"
proof -
  have sel: "selectEnvironment wd (Text s) = Some (Getenv wd ''DEMO'', demoAddress, ''Demo'')"
    using assms(3) by (simp add: selectEnvironment_folded)
  from handler_resolved [OF assms(1,2) sel, of rw] sel show ?thesis
    by (simp split: prod.splits sum.splits)
qed

theorem demo_resolved_witness:
  "containsFold ''demo'' ''give me a DeMo token'' \<and>
   handler (exampleWorld exampleEnviron (upstreamAnswers 200 (''abc123'' @ newline)))
       newResponseWriter (signedRequest ''give me a DeMo token'')
     = \<lparr>writer = \<lparr>wroteHeader = True, status = 200, body = ''Demo token: abc123''\<rparr>,
        trace = [CallSlashCommandParse (signedRequest ''give me a DeMo token''),
                 CallDo (outbound ''d-secret'' demoAddress)]\<rparr>"
proof -
  have h3: "containsFold ''demo'' (Text \<lparr>Command = ''/otk'', Text = ''give me a DeMo token''\<rparr>)"
    unfolding MatchString_demo [symmetric] by code_simp
  show ?thesis
    using demo_resolved [OF exampleWorld_verifies exampleWorld_parses h3, where rw = newResponseWriter]
      h3
    by (simp add: exampleWorld_Getenv exampleWorld_getToken addresses_not_empty
        TrimSuffix_def HasSuffix_def newline_def Write_new)
qed

text \<open>
  C3. For a request that passes verification and parses, when the command text contains
  "staging" in any letter case: if it does not contain "demo", the environment selected
  is Staging (the variable STAGING, the staging address, the name "Staging"); if it also
  contains "demo", the environment selected is Demo.
\<close>

theorem staging_resolved_unless_demo:
  assumes "verifyRequest wd req = (None, req')"
    and "SlashCommandParse wd req' = Inr s"
    and "containsFold ''staging'' (Text s)"
  shows "(\<not> containsFold ''demo'' (Text s) \<longrightarrow>
            selectEnvironment wd (Text s)
              = Some (Getenv wd ''STAGING'', stagingAddress, ''Staging'') \<and>
            handler wd rw req =
              (case getToken wd (Getenv wd ''STAGING'') stagingAddress of
                 (Inl err, evs) \<Rightarrow>
                   \<lparr>writer = WriteHeader rw StatusInternalServerError,
                    trace = CallSlashCommandParse req' # evs\<rparr>
               | (Inr token, evs) \<Rightarrow>
                   \<lparr>writer = Write rw (''Staging token: '' @ token),
                    trace = CallSlashCommandParse req' # evs\<rparr>)) \<and>
         (containsFold ''demo'' (Text s) \<longrightarrow>
            selectEnvironment wd (Text s) = Some (Getenv wd ''DEMO'', demoAddress, ''Demo'') \<and>
            handler wd rw req =
              (case getToken wd (Getenv wd ''DEMO'') demoAddress of
                 (Inl err, evs) \<Rightarrow>
                   \<lparr>writer = WriteHeader rw StatusInternalServerError,
                    trace = CallSlashCommandParse req' # evs\<rparr>
               | (Inr token, evs) \<Rightarrow>
                   \<lparr>writer = Write rw (''Demo token: '' @ token),
                    trace = CallSlashCommandParse req' # evs\<rparr>))"
proof (intro conjI impI)
  assume nd: "\<not> containsFold ''demo'' (Text s)"
  then show sel: "selectEnvironment wd (Text s)
      = Some (Getenv wd ''STAGING'', stagingAddress, ''Staging'')"
    using assms(3) by (simp add: selectEnvironment_folded)
  from handler_resolved [OF assms(1,2) sel, of rw]
  show "handler wd rw req =
              (case getToken wd (Getenv wd ''STAGING'') stagingAddress of
                 (Inl err, evs) \<Rightarrow>
                   \<lparr>writer = WriteHeader rw StatusInternalServerError,
                    trace = CallSlashCommandParse req' # evs\<rparr>
               | (Inr token, evs) \<Rightarrow>
                   \<lparr>writer = Write rw (''Staging token: '' @ token),
                    trace = CallSlashCommandParse req' # evs\<rparr>)"
    by (simp split: prod.splits sum.splits)
next
  assume d: "containsFold ''demo'' (Text s)"
  then show sel: "selectEnvironment wd (Text s) = Some (Getenv wd ''DEMO'', demoAddress, ''Demo'')"
    by (simp add: selectEnvironment_folded)
  from handler_resolved [OF assms(1,2) sel, of rw]
  show "handler wd rw req =
              (case getToken wd (Getenv wd ''DEMO'') demoAddress of
                 (Inl err, evs) \<Rightarrow>
                   \<lparr>writer = WriteHeader rw StatusInternalServerError,
                    trace = CallSlashCommandParse req' # evs\<rparr>
               | (Inr token, evs) \<Rightarrow>
                   \<lparr>writer = Write rw (''Demo token: '' @ token),
                    trace = CallSlashCommandParse req' # evs\<rparr>)"
    by (simp split: prod.splits sum.splits)
qed

theorem staging_resolved_unless_demo_witness:
  "containsFold ''staging'' ''STAGING please'' \<and> \<not> containsFold ''demo'' ''STAGING please'' \<and>
   handler (exampleWorld exampleEnviron (upstreamAnswers 200 (''abc123'' @ newline)))
       newResponseWriter (signedRequest ''STAGING please'')
     = \<lparr>writer = \<lparr>wroteHeader = True, status = 200, body = ''Staging token: abc123''\<rparr>,
        trace = [CallSlashCommandParse (signedRequest ''STAGING please''),
                 CallDo (outbound ''s-secret'' stagingAddress)]\<rparr> \<and>
   containsFold ''staging'' ''demolition staging'' \<and>
   containsFold ''demo'' ''demolition staging'' \<and>
   handler (exampleWorld exampleEnviron (upstreamAnswers 200 (''abc123'' @ newline)))
       newResponseWriter (signedRequest ''demolition staging'')
     = \<lparr>writer = \<lparr>wroteHeader = True, status = 200, body = ''Demo token: abc123''\<rparr>,
        trace = [CallSlashCommandParse (signedRequest ''demolition staging''),
                 CallDo (outbound ''d-secret'' demoAddress)]\<rparr>"
proof -
  have s1: "containsFold ''staging'' (Text \<lparr>Command = ''/otk'', Text = ''STAGING please''\<rparr>)"
    unfolding MatchString_staging [symmetric] by code_simp
  have d1: "\<not> containsFold ''demo'' (Text \<lparr>Command = ''/otk'', Text = ''STAGING please''\<rparr>)"
    unfolding MatchString_demo [symmetric] by code_simp
  have s2: "containsFold ''staging'' (Text \<lparr>Command = ''/otk'', Text = ''demolition staging''\<rparr>)"
    unfolding MatchString_staging [symmetric] by code_simp
  have d2: "containsFold ''demo'' (Text \<lparr>Command = ''/otk'', Text = ''demolition staging''\<rparr>)"
    unfolding MatchString_demo [symmetric] by code_simp
  show ?thesis
    using staging_resolved_unless_demo
        [OF exampleWorld_verifies exampleWorld_parses s1, where rw = newResponseWriter]
      staging_resolved_unless_demo
        [OF exampleWorld_verifies exampleWorld_parses s2, where rw = newResponseWriter]
      s1 d1 s2 d2
    by (simp add: exampleWorld_Getenv exampleWorld_getToken addresses_not_empty
        TrimSuffix_def HasSuffix_def newline_def Write_new)
qed


text \<open>
  C6. For a request that passes verification, parses and selects an environment, when
  the token fetch succeeds the handler answers 200 and the body is the name of the
  environment, the words " token: " and the token. The instance spelled out after the
  theorem is the text "please use demo" with the upstream body "abc123" and a newline.
\<close>

theorem token_response:
  assumes "verifyRequest wd req = (None, req')"
    and "SlashCommandParse wd req' = Inr s"
    and "selectEnvironment wd (Text s) = Some (bearerToken, address, environment)"
    and "fst (getToken wd bearerToken address) = Inr token"
  shows "status (writer (handler wd newResponseWriter req)) = 200 \<and>
         body (writer (handler wd newResponseWriter req)) = environment @ '' token: '' @ token \<and>
         (environment = ''Demo'' \<or> environment = ''Staging'')"
proof -
  obtain evs where g: "getToken wd bearerToken address = (Inr token, evs)"
    using assms(4) by (cases "getToken wd bearerToken address") simp
  have "environment = ''Demo'' \<or> environment = ''Staging''"
    using assms(3) by (auto simp: selectEnvironment_def split: if_splits)
  with handler_resolved [OF assms(1,2,3), of newResponseWriter] g
  show ?thesis by (simp add: Write_new)
qed

theorem token_response_witness:
  "status (writer (handler
       (exampleWorld exampleEnviron (upstreamAnswers 200 (''abc123'' @ newline)))
       newResponseWriter (signedRequest ''please use demo''))) = 200 \<and>
   body (writer (handler
       (exampleWorld exampleEnviron (upstreamAnswers 200 (''abc123'' @ newline)))
       newResponseWriter (signedRequest ''please use demo''))) = ''Demo token: abc123''"
proof -
  let ?wd = "exampleWorld exampleEnviron (upstreamAnswers 200 (''abc123'' @ newline))"
  have "MatchString demo ''please use demo''"
    by code_simp
  then have h3: "selectEnvironment ?wd (Text \<lparr>Command = ''/otk'', Text = ''please use demo''\<rparr>)
      = Some (''d-secret'', demoAddress, ''Demo'')"
    by (simp add: selectEnvironment_def exampleWorld_Getenv)
  have h4: "fst (getToken ?wd ''d-secret'' demoAddress) = Inr ''abc123''"
    by (simp add: exampleWorld_getToken addresses_not_empty TrimSuffix_def HasSuffix_def
        newline_def)
  show ?thesis
    using token_response [OF exampleWorld_verifies exampleWorld_parses h3 h4] by simp
qed

text \<open>
  C8. When verification gets as far as reading the body and the body can be read, the
  request it leaves behind is the request it was given with a fresh, unread stream over
  the same bytes as body (not the drained stream that reading left), whether or not the
  signature is then accepted; and when it is accepted, that request is the one handed
  to the command parser.
\<close>

theorem body_restored_after_verification:
  assumes "NewSecretsVerifier wd (Header req) (Getenv wd ''SLACK_SIGNING_SECRET'') = Inr sv"
    and "failure (Body req) = None"
  shows "snd (verifyRequest wd req) = req\<lparr>Body := NewBuffer (pending (Body req))\<rparr> \<and>
         fst (ReadAll (Body (snd (verifyRequest wd req)))) = Inr (pending (Body req)) \<and>
         (pending (Body req) \<noteq> [] \<longrightarrow>
            Body (snd (verifyRequest wd req)) \<noteq> snd (ReadAll (Body req))) \<and>
         (fst (verifyRequest wd req) = None \<longrightarrow>
            hd (trace (handler wd rw req))
              = CallSlashCommandParse (req\<lparr>Body := NewBuffer (pending (Body req))\<rparr>))"
proof -
  obtain bs where b: "Body req = Reader bs None"
    using assms(2) by (cases "Body req") simp
  have r: "ReadAll (Body req) = (Inr bs, Reader [] None)"
    by (simp add: b)
  have v: "snd (verifyRequest wd req) = req\<lparr>Body := NewBuffer bs\<rparr>"
    using assms(1) r by (simp add: verifyRequest_def Let_def split: sum.splits option.splits)
  have "hd (trace (handler wd rw req)) = CallSlashCommandParse (req\<lparr>Body := NewBuffer bs\<rparr>)"
    if ok: "fst (verifyRequest wd req) = None"
  proof -
    from ok v have "verifyRequest wd req = (None, req\<lparr>Body := NewBuffer bs\<rparr>)"
      by (cases "verifyRequest wd req") simp
    then show ?thesis
      by (simp add: handler_def split: sum.splits option.splits prod.splits)
  qed
  with v show ?thesis
    by (simp add: b NewBuffer_def)
qed

theorem body_restored_after_verification_witness:
  "snd (verifyRequest (exampleWorld exampleEnviron (upstreamAnswers 200 ''abc123''))
          (signedRequest ''demo''))
     = (signedRequest ''demo'')\<lparr>Body := NewBuffer ''text=demo''\<rparr> \<and>
   fst (ReadAll (Body (snd (verifyRequest
          (exampleWorld exampleEnviron (upstreamAnswers 200 ''abc123''))
          (signedRequest ''demo''))))) = Inr ''text=demo'' \<and>
   hd (trace (handler (exampleWorld exampleEnviron (upstreamAnswers 200 ''abc123''))
          newResponseWriter (signedRequest ''demo'')))
     = CallSlashCommandParse ((signedRequest ''demo'')\<lparr>Body := NewBuffer ''text=demo''\<rparr>)"
proof -
  let ?wd = "exampleWorld exampleEnviron (upstreamAnswers 200 ''abc123'')"
  have h1: "NewSecretsVerifier ?wd (Header (signedRequest ''demo''))
              (Getenv ?wd ''SLACK_SIGNING_SECRET'') = Inr (''shh:v0:1:text=demo'', ''shh:v0:1:'')"
    by (simp add: exampleWorld_def exampleEnviron_def signedRequest_def Getenv_def
        exampleNewSecretsVerifier_def)
  have h2: "failure (Body (signedRequest ''demo'')) = None"
    by (simp add: signedRequest_def NewBuffer_def)
  have p: "pending (Body (signedRequest ''demo'')) = ''text=demo''"
    by (simp add: signedRequest_def NewBuffer_def)
  have ok: "fst (verifyRequest ?wd (signedRequest ''demo'')) = None"
    by (simp add: exampleWorld_verifies)
  show ?thesis
    using body_restored_after_verification [OF h1 h2, of newResponseWriter] ok
    unfolding p by blast
qed

text \<open>
  C10. For a request that passes verification, parses and selects an environment whose
  bearer variable is unset or empty, the handler does not stop: as long as the address
  parses as a URL, it sends the POST to that address with the header
  "Authorization: Bearer " and nothing after the space.
\<close>

theorem empty_bearer_still_posted:
  assumes "verifyRequest wd req = (None, req')"
    and "SlashCommandParse wd req' = Inr s"
    and "containsFold ''demo'' (Text s) \<and> address = demoAddress \<and>
           (environ wd ''DEMO'' = None \<or> environ wd ''DEMO'' = Some [])
         \<or> \<not> containsFold ''demo'' (Text s) \<and> containsFold ''staging'' (Text s) \<and>
           address = stagingAddress \<and>
           (environ wd ''STAGING'' = None \<or> environ wd ''STAGING'' = Some [])"
    and "url_Parse wd address = None"
  shows "trace (handler wd rw req) =
           [CallSlashCommandParse req',
            CallDo \<lparr>Method = ''POST'', URL = address,
                    Header = [(''Authorization'', [''Bearer ''])], Body = NoBody\<rparr>]"
proof -
  have sel: "selectEnvironment wd (Text s) = Some ([], address,
               if address = demoAddress then ''Demo'' else ''Staging'')"
    using assms(3)
    by (auto simp: selectEnvironment_folded Getenv_def demoAddress_def stagingAddress_def)
  have "trace (handler wd rw req) = CallSlashCommandParse req' # snd (getToken wd [] address)"
    using handler_resolved [OF assms(1,2) sel, of rw]
    by (simp split: prod.splits sum.splits)
  then show ?thesis
    by (simp add: getToken_trace [OF assms(4)] outbound_def)
qed

theorem empty_bearer_still_posted_witness:
  "trace (handler (exampleWorld (exampleEnviron(''DEMO'' := None)) (upstreamAnswers 401 ''denied''))
       newResponseWriter (signedRequest ''demo''))
     = [CallSlashCommandParse (signedRequest ''demo''),
        CallDo \<lparr>Method = ''POST'', URL = demoAddress,
                Header = [(''Authorization'', [''Bearer ''])], Body = NoBody\<rparr>] \<and>
   trace (handler (exampleWorld (exampleEnviron(''STAGING'' \<mapsto> [])) (upstreamAnswers 401 ''denied''))
       newResponseWriter (signedRequest ''staging''))
     = [CallSlashCommandParse (signedRequest ''staging''),
        CallDo \<lparr>Method = ''POST'', URL = stagingAddress,
                Header = [(''Authorization'', [''Bearer ''])], Body = NoBody\<rparr>]"
proof -
  let ?wd1 = "exampleWorld (exampleEnviron(''DEMO'' := None)) (upstreamAnswers 401 ''denied'')"
  let ?wd2 = "exampleWorld (exampleEnviron(''STAGING'' \<mapsto> [])) (upstreamAnswers 401 ''denied'')"
  have v1: "verifyRequest ?wd1 (signedRequest ''demo'') = (None, signedRequest ''demo'')"
    by (rule exampleWorld_verifies_env) (simp add: exampleEnviron_def)
  have v2: "verifyRequest ?wd2 (signedRequest ''staging'') = (None, signedRequest ''staging'')"
    by (rule exampleWorld_verifies_env) (simp add: exampleEnviron_def)
  have d1: "containsFold ''demo'' ''demo''"
    by code_simp
  have d2: "\<not> containsFold ''demo'' ''staging''"
    by code_simp
  have s2: "containsFold ''staging'' ''staging''"
    by code_simp
  have c1: "containsFold ''demo'' (Text \<lparr>Command = ''/otk'', Text = ''demo''\<rparr>) \<and>
        demoAddress = demoAddress \<and>
        (environ ?wd1 ''DEMO'' = None \<or> environ ?wd1 ''DEMO'' = Some [])
      \<or> \<not> containsFold ''demo'' (Text \<lparr>Command = ''/otk'', Text = ''demo''\<rparr>) \<and>
        containsFold ''staging'' (Text \<lparr>Command = ''/otk'', Text = ''demo''\<rparr>) \<and>
        demoAddress = stagingAddress \<and>
        (environ ?wd1 ''STAGING'' = None \<or> environ ?wd1 ''STAGING'' = Some [])"
    using d1 by (simp add: exampleWorld_def)
  have c2: "containsFold ''demo'' (Text \<lparr>Command = ''/otk'', Text = ''staging''\<rparr>) \<and>
        stagingAddress = demoAddress \<and>
        (environ ?wd2 ''DEMO'' = None \<or> environ ?wd2 ''DEMO'' = Some [])
      \<or> \<not> containsFold ''demo'' (Text \<lparr>Command = ''/otk'', Text = ''staging''\<rparr>) \<and>
        containsFold ''staging'' (Text \<lparr>Command = ''/otk'', Text = ''staging''\<rparr>) \<and>
        stagingAddress = stagingAddress \<and>
        (environ ?wd2 ''STAGING'' = None \<or> environ ?wd2 ''STAGING'' = Some [])"
    using d2 s2 by (simp add: exampleWorld_def)
  have u1: "url_Parse ?wd1 demoAddress = None"
    by (simp add: exampleWorld_def demoAddress_def)
  have u2: "url_Parse ?wd2 stagingAddress = None"
    by (simp add: exampleWorld_def stagingAddress_def)
  show ?thesis
    using empty_bearer_still_posted [OF v1 exampleWorld_parses c1 u1, of newResponseWriter]
      empty_bearer_still_posted [OF v2 exampleWorld_parses c2 u2, of newResponseWriter]
    by blast
qed

text \<open>
  C1, amended. For a request that passes verification, parses and selects an
  environment: when the token fetch fails, the handler answers 500 with an empty body.
  The fetch fails exactly when the URL does not parse, the HTTP exchange itself fails, or
  the body of the response cannot be read. The status code of the response is not looked
  at: whenever a response arrives and its body can be read, whatever its status code, the
  handler answers 200 and the body is the name of the environment, " token: " and the
  body of the response less one trailing newline.
\<close>

theorem fetch_failure_is_500:
  assumes "verifyRequest wd req = (None, req')"
    and "SlashCommandParse wd req' = Inr s"
    and "selectEnvironment wd (Text s) = Some (bearerToken, address, environment)"
  shows "(fst (getToken wd bearerToken address) = Inl err \<longrightarrow>
            status (writer (handler wd newResponseWriter req)) = 500 \<and>
            body (writer (handler wd newResponseWriter req)) = []) \<and>
         (fst (getToken wd bearerToken address) = Inl err \<longleftrightarrow>
            url_Parse wd address = Some err \<or>
            url_Parse wd address = None \<and>
              (client_Do wd (outbound bearerToken address) = Inl err \<or>
               (\<exists>res. client_Do wd (outbound bearerToken address) = Inr res \<and>
                      fst (ReadAll (RespBody res)) = Inl err))) \<and>
         (url_Parse wd address = None \<and>
          client_Do wd (outbound bearerToken address) = Inr res \<and>
          fst (ReadAll (RespBody res)) = Inr bs \<longrightarrow>
            status (writer (handler wd newResponseWriter req)) = 200 \<and>
            body (writer (handler wd newResponseWriter req))
              = environment @ '' token: '' @ TrimSuffix bs newline)"
proof (intro conjI impI)
  note h = handler_resolved [OF assms, of newResponseWriter]
  {
    assume "fst (getToken wd bearerToken address) = Inl err"
    then obtain evs where "getToken wd bearerToken address = (Inl err, evs)"
      by (cases "getToken wd bearerToken address") simp
    with h have "writer (handler wd newResponseWriter req)
        = WriteHeader newResponseWriter StatusInternalServerError" by simp
    then show "status (writer (handler wd newResponseWriter req)) = 500"
      and "body (writer (handler wd newResponseWriter req)) = []"
      by (simp_all add: WriteHeader_new StatusInternalServerError_def)
  }
  show "fst (getToken wd bearerToken address) = Inl err \<longleftrightarrow>
            url_Parse wd address = Some err \<or>
            url_Parse wd address = None \<and>
              (client_Do wd (outbound bearerToken address) = Inl err \<or>
               (\<exists>res. client_Do wd (outbound bearerToken address) = Inr res \<and>
                      fst (ReadAll (RespBody res)) = Inl err))"
    by (rule getToken_Inl_iff)
  {
    assume "url_Parse wd address = None \<and>
          client_Do wd (outbound bearerToken address) = Inr res \<and>
          fst (ReadAll (RespBody res)) = Inr bs"
    then have "getToken wd bearerToken address
        = (Inr (TrimSuffix bs newline), [CallDo (outbound bearerToken address)])"
      by (simp add: getToken_unfold)
    with h have "writer (handler wd newResponseWriter req)
        = Write newResponseWriter (environment @ '' token: '' @ TrimSuffix bs newline)" by simp
    then show "status (writer (handler wd newResponseWriter req)) = 200"
      and "body (writer (handler wd newResponseWriter req))
              = environment @ '' token: '' @ TrimSuffix bs newline"
      by (simp_all add: Write_new)
  }
qed

text \<open>An upstream server that cannot be reached, and one that answers with status 503.\<close>

theorem fetch_failure_is_500_witness:
  "fst (getToken (exampleWorld exampleEnviron (Inl (Error ''dial tcp: i/o timeout'')))
          ''d-secret'' demoAddress) = Inl (Error ''dial tcp: i/o timeout'') \<and>
   status (writer (handler (exampleWorld exampleEnviron (Inl (Error ''dial tcp: i/o timeout'')))
          newResponseWriter (signedRequest ''demo''))) = 500 \<and>
   body (writer (handler (exampleWorld exampleEnviron (Inl (Error ''dial tcp: i/o timeout'')))
          newResponseWriter (signedRequest ''demo''))) = [] \<and>
   status (writer (handler
          (exampleWorld exampleEnviron (upstreamAnswers 503 (''busy'' @ newline)))
          newResponseWriter (signedRequest ''demo''))) = 200 \<and>
   body (writer (handler
          (exampleWorld exampleEnviron (upstreamAnswers 503 (''busy'' @ newline)))
          newResponseWriter (signedRequest ''demo''))) = ''Demo token: busy''"
proof -
  let ?down = "exampleWorld exampleEnviron (Inl (Error ''dial tcp: i/o timeout''))"
  let ?busy = "exampleWorld exampleEnviron (upstreamAnswers 503 (''busy'' @ newline))"
  let ?res = "\<lparr>StatusCode = 503, RespBody = NewBuffer (''busy'' @ newline)\<rparr>"
  have g: "fst (getToken ?down ''d-secret'' demoAddress) = Inl (Error ''dial tcp: i/o timeout'')"
    by (simp add: getToken_unfold exampleWorld_def demoAddress_def)
  have r: "url_Parse ?busy demoAddress = None \<and>
           client_Do ?busy (outbound ''d-secret'' demoAddress) = Inr ?res \<and>
           fst (ReadAll (RespBody ?res)) = Inr (''busy'' @ newline)"
    by (simp add: exampleWorld_def demoAddress_def upstreamAnswers_def NewBuffer_def)
  have t: "''Demo'' @ '' token: '' @ TrimSuffix (''busy'' @ newline) newline = ''Demo token: busy''"
    by (simp only: TrimSuffix_append) simp
  show ?thesis
    using fetch_failure_is_500 [OF exampleWorld_verifies exampleWorld_parses
        exampleWorld_selects_demo, of "Inl (Error ''dial tcp: i/o timeout'')"
        "Error ''dial tcp: i/o timeout''"]
      fetch_failure_is_500 [OF exampleWorld_verifies exampleWorld_parses
        exampleWorld_selects_demo, of "upstreamAnswers 503 (''busy'' @ newline)" _ ?res
        "''busy'' @ newline"]
      g r unfolding t by blast
qed

text \<open>
  C1 as stated fails: the upstream server answers with status 500 and a readable body,
  and the handler answers 200 and renders that body as the token.
\<close>

theorem upstream_500_counterexample:
  "client_Do (exampleWorld exampleEnviron
        (upstreamAnswers 500 (''Internal Server Error'' @ newline)))
      (outbound ''d-secret'' demoAddress)
     = Inr \<lparr>StatusCode = 500, RespBody = NewBuffer (''Internal Server Error'' @ newline)\<rparr> \<and>
   handler (exampleWorld exampleEnviron
        (upstreamAnswers 500 (''Internal Server Error'' @ newline)))
      newResponseWriter (signedRequest ''demo'')
     = \<lparr>writer = \<lparr>wroteHeader = True, status = 200,
                   body = ''Demo token: Internal Server Error''\<rparr>,
        trace = [CallSlashCommandParse (signedRequest ''demo''),
                 CallDo (outbound ''d-secret'' demoAddress)]\<rparr> \<and>
   \<not> (status (writer (handler (exampleWorld exampleEnviron
            (upstreamAnswers 500 (''Internal Server Error'' @ newline)))
          newResponseWriter (signedRequest ''demo''))) = 500 \<and>
      body (writer (handler (exampleWorld exampleEnviron
            (upstreamAnswers 500 (''Internal Server Error'' @ newline)))
          newResponseWriter (signedRequest ''demo''))) = [])"
proof -
  let ?wd = "exampleWorld exampleEnviron
        (upstreamAnswers 500 (''Internal Server Error'' @ newline))"
  have d: "client_Do ?wd (outbound ''d-secret'' demoAddress)
     = Inr \<lparr>StatusCode = 500, RespBody = NewBuffer (''Internal Server Error'' @ newline)\<rparr>"
    by (simp add: exampleWorld_def upstreamAnswers_def)
  have g: "getToken ?wd ''d-secret'' demoAddress
     = (Inr ''Internal Server Error'', [CallDo (outbound ''d-secret'' demoAddress)])"
    by (simp add: exampleWorld_getToken addresses_not_empty TrimSuffix_def HasSuffix_def
        newline_def)
  have h: "handler ?wd newResponseWriter (signedRequest ''demo'')
     = \<lparr>writer = \<lparr>wroteHeader = True, status = 200,
                   body = ''Demo token: Internal Server Error''\<rparr>,
        trace = [CallSlashCommandParse (signedRequest ''demo''),
                 CallDo (outbound ''d-secret'' demoAddress)]\<rparr>"
    using handler_resolved [OF exampleWorld_verifies exampleWorld_parses
        exampleWorld_selects_demo, of _ newResponseWriter] g
    by (simp add: Write_new)
  show ?thesis
    unfolding h using d by simp
qed

end
